theory Spec2Isabelle
  imports Complex_Main "HOL-Library.FSet" "HOL-Library.Stream"
begin

section \<open>The colour-fill animation of \<open>source/main.cpp\<close>\<close>

subsection \<open>Data\<close>

text \<open>
  \<open>glm::vec3\<close>: three float components. The program only ever copies whole vectors and
  writes the constants 0 and 1, so the components are modelled as reals.
\<close>

datatype vec3 = Vec3 real real real

text \<open>\<open>struct Vertex\<close> of \<open>include/vertex.h\<close>.\<close>

record Vertex =
  position :: vec3
  color :: vec3

text \<open>
  The globals of \<open>main.cpp\<close> that the animation reads or writes. The array \<open>sphere\<close>
  is declared in \<open>sphere.h\<close>, which is not among the sources: its contents are a
  parameter (the field \<open>sphere\<close> of the initial state), and
  \<open>sizeof(sphere) / sizeof(Vertex)\<close> is the length of that list. \<open>sceneRender\<close> draws
  \<open>240 * 3\<close> vertices of it, so the properties about the program take a mesh of length
  720. The global \<open>color\<close> is the field \<open>g_color\<close> (the name \<open>color\<close> is the field of
  \<open>Vertex\<close>). \<open>rand_src\<close> is the sequence of values that the coming calls of \<open>rand()\<close>
  return; \<open>rand()\<close> returns a value between 0 and \<open>RAND_MAX\<close>, hence a natural number,
  and the indices \<open>rand() % 240\<close> stored in \<open>std::set<int> changed_indeces\<close> are natural
  numbers too.
\<close>

record scene =
  sphere :: "Vertex list"
  changed_indeces :: "nat fset"
  g_color :: vec3
  is_changing_color :: bool
  selected_color :: int
  prev_color :: int
  rand_src :: "nat stream"

text \<open>
  A call either never returns (\<open>None\<close>: the \<open>while (true)\<close> loop never reaches its
  \<open>break\<close>), or indexes \<open>sphere\<close> outside the array (undefined behaviour in C++,
  reported here as \<open>OutOfBounds\<close>), or returns the new state.
\<close>

datatype fault = OutOfBounds

type_synonym outcome = "(fault + scene) option"

definition andthen :: "outcome \<Rightarrow> (scene \<Rightarrow> outcome) \<Rightarrow> outcome" where
  "andthen m f = (case m of None \<Rightarrow> None | Some (Inl e) \<Rightarrow> Some (Inl e) | Some (Inr s) \<Rightarrow> f s)"

subsection \<open>\<open>sceneRender\<close>\<close>

text \<open>
  The loop of lines 267 to 271:
  \<^verbatim>\<open>while (true) { i = rand() % 240; if (changed_indeces.find(i) == changed_indeces.end()) break; }\<close>
  It returns the index it leaves the loop with and the rest of the random sequence.
\<close>

partial_function (option) draw :: "nat fset \<Rightarrow> nat stream \<Rightarrow> (nat \<times> nat stream) option" where
  "draw S r = (if shd r mod 240 |\<notin>| S then Some (shd r mod 240, stl r) else draw S (stl r))"

text \<open>
  The body of one \<open>if\<close> block (lines 266 to 275): \<open>int i = rand() % 240;\<close> consumes one
  random value that the loop overwrites, then comes the loop, then (\<open>store_color\<close>) the
  three identical assignments \<open>sphere[i].color = color;\<close> and
  \<open>changed_indeces.insert(i);\<close>.
\<close>

definition store_color :: "nat \<Rightarrow> scene \<Rightarrow> scene" where
  "store_color i s =
    s\<lparr>sphere := (sphere s)[i := (sphere s ! i)\<lparr>color := g_color s\<rparr>],
      changed_indeces := finsert i (changed_indeces s)\<rparr>"

definition paint :: "scene \<Rightarrow> outcome" where
  "paint s =
    (case draw (changed_indeces s) (stl (rand_src s)) of
       None \<Rightarrow> None
     | Some (i, r) \<Rightarrow>
         if i < length (sphere s)
         then Some (Inr (store_color i (s\<lparr>rand_src := r\<rparr>)))
         else Some (Inl OutOfBounds))"

text \<open>The guard \<open>changed_indeces.size() < sizeof(sphere) / sizeof(Vertex)\<close>.\<close>

definition unfinished :: "scene \<Rightarrow> bool" where
  "unfinished s = (fcard (changed_indeces s) < length (sphere s))"

text \<open>The first three \<open>if\<close> blocks (lines 265, 277, 289) have no \<open>else\<close>.\<close>

definition recolor :: "scene \<Rightarrow> outcome" where
  "recolor s = (if unfinished s then paint s else Some (Inr s))"

text \<open>The fourth block (line 301) has the \<open>else\<close> that clears \<open>is_changing_color\<close>.\<close>

definition recolor_last :: "scene \<Rightarrow> outcome" where
  "recolor_last s = (if unfinished s then paint s else Some (Inr (s\<lparr>is_changing_color := False\<rparr>)))"

text \<open>
  \<open>sceneRender\<close>: the four blocks in sequence. The OpenGL calls before and after them
  read the state and write none of the fields of \<open>scene\<close>.
\<close>

definition sceneRender :: "scene \<Rightarrow> outcome" where
  "sceneRender s = andthen (andthen (andthen (recolor s) recolor) recolor) recolor_last"

text \<open>\<open>n\<close> calls of \<open>sceneRender\<close> in a row, with no \<open>changed_indeces.clear()\<close> between them.\<close>

fun render_times :: "nat \<Rightarrow> scene \<Rightarrow> outcome" where
  "render_times 0 s = Some (Inr s)"
| "render_times (Suc n) s = andthen (sceneRender s) (render_times n)"

subsection \<open>One iteration of the loop of \<open>main\<close>\<close>

text \<open>
  The initialisers of the globals (lines 203 to 212), for a mesh \<open>m\<close> and a random
  sequence \<open>r\<close>.
\<close>

definition initial :: "Vertex list \<Rightarrow> nat stream \<Rightarrow> scene" where
  "initial m r =
    \<lparr>sphere = m, changed_indeces = {||}, g_color = Vec3 1 0 0, is_changing_color = False,
     selected_color = 0, prev_color = 0, rand_src = r\<rparr>"

text \<open>
  Lines 379 to 402. \<open>up\<close> is \<open>buttons_state & (HidNpadButton_Up | HidNpadButton_StickLUp)\<close>
  and \<open>down\<close> is \<open>buttons_state & (HidNpadButton_Down | HidNpadButton_StickLDown)\<close>, both as
  truth values. The three branches differ in the value of \<open>selected_color\<close> only.
\<close>

definition choose_color :: "int \<Rightarrow> scene \<Rightarrow> scene" where
  "choose_color c s =
    (let s1 = s\<lparr>selected_color := c\<rparr> in
     if prev_color s1 \<noteq> selected_color s1
     then s1\<lparr>is_changing_color := True, changed_indeces := {||}\<rparr>
     else s1\<lparr>is_changing_color := False\<rparr>)"

definition read_pad :: "bool \<Rightarrow> bool \<Rightarrow> scene \<Rightarrow> scene" where
  "read_pad up down s = (if up then choose_color 2 s else if down then choose_color 1 s else choose_color 0 s)"

text \<open>The \<open>switch (selected_color)\<close> of lines 413 to 425.\<close>

definition set_color :: "scene \<Rightarrow> scene" where
  "set_color s =
    (if selected_color s = 0 then s\<lparr>g_color := Vec3 1 0 0\<rparr>
     else if selected_color s = 1 then s\<lparr>g_color := Vec3 0 1 0\<rparr>
     else if selected_color s = 2 then s\<lparr>g_color := Vec3 0 0 1\<rparr>
     else s)"

text \<open>
  One iteration that reaches \<open>sceneRender\<close>: the pad is read, the colour is set, the scene
  is rendered, and \<open>prev_color = selected_color;\<close>. The translation and rotation matrices
  are not part of \<open>scene\<close>.
\<close>

definition frame :: "bool \<Rightarrow> bool \<Rightarrow> scene \<Rightarrow> outcome" where
  "frame up down s =
    andthen (sceneRender (set_color (read_pad up down s)))
      (\<lambda>t. Some (Inr (t\<lparr>prev_color := selected_color t\<rparr>)))"

text \<open>The loop of \<open>main\<close> over the pad readings of successive iterations.\<close>

fun frames :: "(bool \<times> bool) list \<Rightarrow> scene \<Rightarrow> outcome" where
  "frames [] s = Some (Inr s)"
| "frames (b # bs) s = andthen (frame (fst b) (snd b) s) (frames bs)"

subsection \<open>What one pass may change\<close>

text \<open>
  \<open>pass_step s t\<close> relates a state to a later state of the same pass (no
  \<open>changed_indeces.clear()\<close> in between): the mesh keeps its size, the colour and the
  selection are untouched, the set has only grown, positions are unchanged, a vertex whose
  index was not added is unchanged, and a vertex whose index was added has an index below
  240 and carries the colour.
\<close>

definition pass_step :: "scene \<Rightarrow> scene \<Rightarrow> bool" where
  "pass_step s t \<longleftrightarrow>
     length (sphere t) = length (sphere s) \<and> g_color t = g_color s \<and>
     selected_color t = selected_color s \<and> prev_color t = prev_color s \<and>
     changed_indeces s |\<subseteq>| changed_indeces t \<and>
     (\<forall>j<length (sphere s). position (sphere t ! j) = position (sphere s ! j)) \<and>
     (\<forall>j<length (sphere s). j |\<in>| changed_indeces s \<or> j |\<notin>| changed_indeces t \<longrightarrow>
          sphere t ! j = sphere s ! j) \<and>
     (\<forall>j. j |\<in>| changed_indeces t \<and> j |\<notin>| changed_indeces s \<longrightarrow>
          j < 240 \<and> j < length (sphere s) \<and> color (sphere t ! j) = g_color s)"

subsection \<open>The invariant of the recoloured vertices\<close>

text \<open>
  \<open>painted_ok\<close>: every index of the set is an index of the mesh, and its vertex has the
  current colour. \<open>color_current\<close>: between two iterations of the loop of \<open>main\<close>,
  \<open>prev_color\<close> is one of the three selections and the global colour is the one the
  \<open>switch\<close> assigns for it.
\<close>

definition painted_ok :: "scene \<Rightarrow> bool" where
  "painted_ok s \<longleftrightarrow>
     (\<forall>i. i |\<in>| changed_indeces s \<longrightarrow> i < length (sphere s) \<and> color (sphere s ! i) = g_color s)"

definition color_current :: "scene \<Rightarrow> bool" where
  "color_current s \<longleftrightarrow>
     (prev_color s = 0 \<or> prev_color s = 1 \<or> prev_color s = 2) \<and>
     g_color (set_color (s\<lparr>selected_color := prev_color s\<rparr>)) = g_color s"

subsection \<open>Comparing two runs\<close>

text \<open>
  \<open>wipe c m\<close> overwrites \<open>is_changing_color\<close> with \<open>c\<close> in the state an outcome returns:
  two outcomes with the same \<open>wipe c\<close> both diverge, or both fault, or return states that
  agree on every field but that flag.
\<close>

definition wipe :: "bool \<Rightarrow> outcome \<Rightarrow> outcome" where
  "wipe c m = map_option (map_sum id (\<lambda>t. t\<lparr>is_changing_color := c\<rparr>)) m"

section \<open>Properties\<close>

subsection \<open>The sampling loop\<close>

lemma draw_Some_aux: "draw S r = Some p \<Longrightarrow> fst p |\<notin>| S \<and> fst p < 240"
  by (erule draw.raw_induct[rotated]) (auto split: if_splits)

lemma draw_Some: "draw S r = Some (i, r') \<Longrightarrow> i |\<notin>| S \<and> i < 240"
  using draw_Some_aux[of S r "(i, r')"] by simp

lemma draw_full: "\<forall>i<240. i |\<in>| S \<Longrightarrow> draw S r = None"
proof (cases "draw S r")
  case None then show ?thesis .
next
  case (Some p)
  assume a: "\<forall>i<240. i |\<in>| S"
  from draw_Some_aux[OF Some] a show ?thesis by blast
qed

lemma draw_returns: "shd (sdrop k r) mod 240 |\<notin>| S \<Longrightarrow> \<exists>p. draw S r = Some p"
proof (induction k arbitrary: r)
  case 0
  then show ?case by (subst draw.simps) simp
next
  case (Suc k)
  then have "\<exists>p. draw S (stl r) = Some p" by simp
  then show ?case by (subst draw.simps) simp
qed

lemma andthen_simps [simp]:
  "andthen None f = None"
  "andthen (Some (Inl e)) f = Some (Inl e)"
  "andthen (Some (Inr s)) f = f s"
  by (simp_all add: andthen_def)

lemma andthen_Inr:
  "andthen m f = Some (Inr t) \<longleftrightarrow> (\<exists>u. m = Some (Inr u) \<and> f u = Some (Inr t))"
  by (auto simp: andthen_def split: option.splits sum.splits)

lemma paint_Inr:
  "paint s = Some (Inr t) \<longleftrightarrow>
    (\<exists>i r. draw (changed_indeces s) (stl (rand_src s)) = Some (i, r) \<and> i < length (sphere s) \<and>
            t = store_color i (s\<lparr>rand_src := r\<rparr>))"
  by (auto simp: paint_def split: option.splits if_splits)

lemma sceneRender_Inr:
  "sceneRender s = Some (Inr t) \<longleftrightarrow>
     (\<exists>s1 s2 s3. recolor s = Some (Inr s1) \<and> recolor s1 = Some (Inr s2) \<and>
        recolor s2 = Some (Inr s3) \<and> recolor_last s3 = Some (Inr t))"
  by (auto simp: sceneRender_def andthen_Inr)

lemma fcard_below: "\<forall>i. i |\<in>| S \<longrightarrow> i < n \<Longrightarrow> fcard S \<le> (n::nat)"
proof -
  assume "\<forall>i. i |\<in>| S \<longrightarrow> i < n"
  then have "fset S \<subseteq> {..<n}" by auto
  then have "card (fset S) \<le> card {..<n}" by (intro card_mono) auto
  then show ?thesis by (simp add: fcard.rep_eq)
qed

lemma fcard_full: "\<forall>i. i |\<in>| S \<longrightarrow> i < n \<Longrightarrow> fcard S = n \<Longrightarrow> i < n \<Longrightarrow> i |\<in>| S"
proof -
  assume a: "\<forall>i. i |\<in>| S \<longrightarrow> i < n" and b: "fcard S = n" and c: "i < n"
  from a have "fset S \<subseteq> {..<n}" by auto
  moreover from b have "card (fset S) = card {..<n}" by (simp add: fcard.rep_eq)
  ultimately have "fset S = {..<n}" by (intro card_subset_eq) auto
  with c show ?thesis by auto
qed

subsection \<open>Effect of the blocks on the mesh and the set\<close>

lemma pass_step_refl: "pass_step s s"
  by (simp add: pass_step_def)

lemma pass_step_flag: "pass_step s (s\<lparr>is_changing_color := b\<rparr>)"
  by (simp add: pass_step_def)

lemma pass_step_trans:
  assumes su: "pass_step s u" and ut: "pass_step u t"
  shows "pass_step s t"
proof -
  have len: "length (sphere u) = length (sphere s)" "length (sphere t) = length (sphere s)"
    and col: "g_color u = g_color s" "g_color t = g_color s"
    and sel: "selected_color t = selected_color s" "prev_color t = prev_color s"
    and sub: "changed_indeces s |\<subseteq>| changed_indeces u" "changed_indeces u |\<subseteq>| changed_indeces t"
    using su ut by (simp_all add: pass_step_def)
  have pos: "position (sphere t ! j) = position (sphere s ! j)" if "j < length (sphere s)" for j
    using su ut that by (auto simp: pass_step_def)
  have keep1: "sphere u ! j = sphere s ! j"
    if "j < length (sphere s)" "j |\<in>| changed_indeces s \<or> j |\<notin>| changed_indeces u" for j
    using su that by (auto simp: pass_step_def)
  have keep2: "sphere t ! j = sphere u ! j"
    if "j < length (sphere s)" "j |\<in>| changed_indeces u \<or> j |\<notin>| changed_indeces t" for j
    using ut that len by (auto simp: pass_step_def)
  have new1: "j < 240 \<and> j < length (sphere s) \<and> color (sphere u ! j) = g_color s"
    if "j |\<in>| changed_indeces u" "j |\<notin>| changed_indeces s" for j
    using su that by (auto simp: pass_step_def)
  have new2: "j < 240 \<and> j < length (sphere s) \<and> color (sphere t ! j) = g_color s"
    if "j |\<in>| changed_indeces t" "j |\<notin>| changed_indeces u" for j
    using ut that len col by (auto simp: pass_step_def)
  have keep: "sphere t ! j = sphere s ! j"
    if "j < length (sphere s)" "j |\<in>| changed_indeces s \<or> j |\<notin>| changed_indeces t" for j
  proof -
    from that(2) sub have a: "j |\<in>| changed_indeces s \<or> j |\<notin>| changed_indeces u"
      and b: "j |\<in>| changed_indeces u \<or> j |\<notin>| changed_indeces t" by auto
    from keep1[OF that(1) a] keep2[OF that(1) b] show ?thesis by simp
  qed
  have new: "j < 240 \<and> j < length (sphere s) \<and> color (sphere t ! j) = g_color s"
    if "j |\<in>| changed_indeces t" "j |\<notin>| changed_indeces s" for j
  proof (cases "j |\<in>| changed_indeces u")
    case True
    with new1 that have n: "j < 240 \<and> j < length (sphere s) \<and> color (sphere u ! j) = g_color s"
      by blast
    with keep2[of j] True show ?thesis by simp
  next
    case False
    with new2 that show ?thesis by blast
  qed
  from sub have "changed_indeces s |\<subseteq>| changed_indeces t" by auto
  with len col sel pos keep new show ?thesis
    unfolding pass_step_def by blast
qed

lemma store_color_step:
  assumes "i |\<notin>| changed_indeces s" "i < 240" "i < length (sphere s)"
  shows "pass_step s (store_color i (s\<lparr>rand_src := r\<rparr>))"
  using assms by (auto simp: pass_step_def store_color_def nth_list_update)

lemma paint_step: "paint s = Some (Inr t) \<Longrightarrow> pass_step s t"
  by (auto simp: paint_Inr dest!: draw_Some intro: store_color_step)

lemma recolor_step: "recolor s = Some (Inr t) \<Longrightarrow> pass_step s t"
  by (auto simp: recolor_def pass_step_refl paint_step split: if_splits)

lemma recolor_last_step: "recolor_last s = Some (Inr t) \<Longrightarrow> pass_step s t"
  by (auto simp: recolor_last_def pass_step_flag paint_step split: if_splits)

lemma sceneRender_step: "sceneRender s = Some (Inr t) \<Longrightarrow> pass_step s t"
  by (auto simp: sceneRender_Inr dest!: recolor_step recolor_last_step intro: pass_step_trans)

lemma render_times_step: "render_times n s = Some (Inr t) \<Longrightarrow> pass_step s t"
proof (induction n arbitrary: s)
  case 0
  then show ?case by (simp add: pass_step_refl)
next
  case (Suc n)
  then obtain u where "sceneRender s = Some (Inr u)" "render_times n u = Some (Inr t)"
    by (auto simp: andthen_Inr)
  with Suc.IH show ?case by (blast intro: pass_step_trans sceneRender_step)
qed

subsection \<open>Counting the indices\<close>

lemma paint_InrD:
  assumes "paint s = Some (Inr t)"
  shows "\<exists>i r. draw (changed_indeces s) (stl (rand_src s)) = Some (i, r) \<and>
           i |\<notin>| changed_indeces s \<and> i < 240 \<and> i < length (sphere s) \<and>
           t = store_color i (s\<lparr>rand_src := r\<rparr>)"
  using assms by (auto simp: paint_Inr dest: draw_Some)

lemma paint_fcard:
  "paint s = Some (Inr t) \<Longrightarrow> fcard (changed_indeces t) = Suc (fcard (changed_indeces s))"
  by (auto dest!: paint_InrD simp: store_color_def fcard_finsert_disjoint)

lemma paint_length: "paint s = Some (Inr t) \<Longrightarrow> length (sphere t) = length (sphere s)"
  by (auto dest!: paint_InrD simp: store_color_def)

lemma paint_low:
  "paint s = Some (Inr t) \<Longrightarrow> \<forall>i. i |\<in>| changed_indeces s \<longrightarrow> i < 240 \<Longrightarrow>
     \<forall>i. i |\<in>| changed_indeces t \<longrightarrow> i < 240"
  by (auto dest!: paint_InrD simp: store_color_def)

lemma paint_no_fault: "240 \<le> length (sphere s) \<Longrightarrow> paint s \<noteq> Some (Inl e)"
  by (auto simp: paint_def split: option.splits dest!: draw_Some)

lemma low_unfinished:
  "\<forall>i. i |\<in>| changed_indeces s \<longrightarrow> i < 240 \<Longrightarrow> 240 < length (sphere s) \<Longrightarrow> unfinished s"
  using fcard_below[of "changed_indeces s" 240] by (simp add: unfinished_def)

text \<open>While every index of the set is below 240 and the mesh has more than 240 vertices,
  each block is the painting body.\<close>

lemma recolor_low:
  "\<forall>i. i |\<in>| changed_indeces s \<longrightarrow> i < 240 \<Longrightarrow> 240 < length (sphere s) \<Longrightarrow> recolor s = paint s"
  by (simp add: recolor_def low_unfinished)

lemma recolor_last_low:
  "\<forall>i. i |\<in>| changed_indeces s \<longrightarrow> i < 240 \<Longrightarrow> 240 < length (sphere s) \<Longrightarrow> recolor_last s = paint s"
  by (simp add: recolor_last_def low_unfinished)

lemma sceneRender_low:
  assumes low: "\<forall>i. i |\<in>| changed_indeces s \<longrightarrow> i < 240" and len: "240 < length (sphere s)"
    and run: "sceneRender s = Some (Inr t)"
  shows "(\<forall>i. i |\<in>| changed_indeces t \<longrightarrow> i < 240) \<and> length (sphere t) = length (sphere s) \<and>
         fcard (changed_indeces t) = fcard (changed_indeces s) + 4"
proof -
  from run obtain s1 s2 s3 where
    b1: "recolor s = Some (Inr s1)" and b2: "recolor s1 = Some (Inr s2)" and
    b3: "recolor s2 = Some (Inr s3)" and b4: "recolor_last s3 = Some (Inr t)"
    by (auto simp: sceneRender_Inr)
  from b1 low len have p1: "paint s = Some (Inr s1)" by (simp add: recolor_low)
  note l1 = paint_low[OF p1 low] and n1 = paint_length[OF p1] and c1 = paint_fcard[OF p1]
  from b2 l1 n1 len have p2: "paint s1 = Some (Inr s2)" by (simp add: recolor_low)
  note l2 = paint_low[OF p2 l1] and n2 = paint_length[OF p2] and c2 = paint_fcard[OF p2]
  from b3 l2 n2 n1 len have p3: "paint s2 = Some (Inr s3)" by (simp add: recolor_low)
  note l3 = paint_low[OF p3 l2] and n3 = paint_length[OF p3] and c3 = paint_fcard[OF p3]
  from b4 l3 n3 n2 n1 len have p4: "paint s3 = Some (Inr t)" by (simp add: recolor_last_low)
  note l4 = paint_low[OF p4 l3] and n4 = paint_length[OF p4] and c4 = paint_fcard[OF p4]
  from l4 n1 n2 n3 n4 c1 c2 c3 c4 show ?thesis by simp
qed

lemma render_times_low:
  "\<forall>i. i |\<in>| changed_indeces s \<longrightarrow> i < 240 \<Longrightarrow> 240 < length (sphere s) \<Longrightarrow>
   render_times n s = Some (Inr t) \<Longrightarrow>
   (\<forall>i. i |\<in>| changed_indeces t \<longrightarrow> i < 240) \<and> length (sphere t) = length (sphere s) \<and>
   fcard (changed_indeces t) = fcard (changed_indeces s) + 4 * n"
proof (induction n arbitrary: s)
  case 0
  then show ?case by simp
next
  case (Suc n)
  from Suc.prems(3) obtain u where u: "sceneRender s = Some (Inr u)" "render_times n u = Some (Inr t)"
    by (auto simp: andthen_Inr)
  from sceneRender_low[OF Suc.prems(1,2) u(1)]
  have lu: "\<forall>i. i |\<in>| changed_indeces u \<longrightarrow> i < 240" and nu: "length (sphere u) = length (sphere s)"
    and cu: "fcard (changed_indeces u) = fcard (changed_indeces s) + 4" by simp_all
  from nu Suc.prems(2) have "240 < length (sphere u)" by simp
  from Suc.IH[OF lu this u(2)] nu cu show ?case by simp
qed

lemma andthen_Inl:
  "andthen m f = Some (Inl e) \<longleftrightarrow> m = Some (Inl e) \<or> (\<exists>u. m = Some (Inr u) \<and> f u = Some (Inl e))"
  by (auto simp: andthen_def split: option.splits sum.splits)

lemma recolor_no_fault: "240 \<le> length (sphere s) \<Longrightarrow> recolor s \<noteq> Some (Inl e)"
  by (simp add: recolor_def paint_no_fault)

lemma recolor_last_no_fault: "240 \<le> length (sphere s) \<Longrightarrow> recolor_last s \<noteq> Some (Inl e)"
  by (simp add: recolor_last_def paint_no_fault)

lemma recolor_length: "recolor s = Some (Inr t) \<Longrightarrow> length (sphere t) = length (sphere s)"
  by (auto simp: recolor_def paint_length split: if_splits)

lemma sceneRender_no_fault:
  assumes len: "240 \<le> length (sphere s)"
  shows "sceneRender s \<noteq> Some (Inl e)"
proof
  assume "sceneRender s = Some (Inl e)"
  then consider "recolor s = Some (Inl e)"
    | s1 where "recolor s = Some (Inr s1)" "recolor s1 = Some (Inl e)"
    | s1 s2 where "recolor s = Some (Inr s1)" "recolor s1 = Some (Inr s2)" "recolor s2 = Some (Inl e)"
    | s1 s2 s3 where "recolor s = Some (Inr s1)" "recolor s1 = Some (Inr s2)"
        "recolor s2 = Some (Inr s3)" "recolor_last s3 = Some (Inl e)"
    by (auto simp: sceneRender_def andthen_Inl andthen_Inr)
  then show False
  proof cases
    case 1
    with len show False by (simp add: recolor_no_fault)
  next
    case 2
    with len recolor_length[OF 2(1)] show False by (simp add: recolor_no_fault)
  next
    case 3
    with len recolor_length[OF 3(1)] recolor_length[OF 3(2)] show False
      by (simp add: recolor_no_fault)
  next
    case 4
    with len recolor_length[OF 4(1)] recolor_length[OF 4(2)] recolor_length[OF 4(3)] show False
      by (simp add: recolor_last_no_fault)
  qed
qed

lemma render_times_no_fault:
  "240 \<le> length (sphere s) \<Longrightarrow> render_times n s \<noteq> Some (Inl e)"
proof (induction n arbitrary: s)
  case 0
  then show ?case by simp
next
  case (Suc n)
  show ?case
  proof
    assume "render_times (Suc n) s = Some (Inl e)"
    then consider "sceneRender s = Some (Inl e)"
      | u where "sceneRender s = Some (Inr u)" "render_times n u = Some (Inl e)"
      by (auto simp: andthen_Inl)
    then show False
    proof cases
      case 1
      with Suc.prems show False by (simp add: sceneRender_no_fault)
    next
      case 2
      from sceneRender_step[OF 2(1)] have "length (sphere u) = length (sphere s)"
        by (simp add: pass_step_def)
      with Suc.prems Suc.IH[of u] 2(2) show False by simp
    qed
  qed
qed

text \<open>Once the calls asked for would need more than 240 distinct indices, they cannot all
  return.\<close>

lemma render_times_stuck:
  assumes low: "\<forall>i. i |\<in>| changed_indeces s \<longrightarrow> i < 240" and len: "240 < length (sphere s)"
    and many: "240 < fcard (changed_indeces s) + 4 * n"
  shows "render_times n s = None"
proof (cases "render_times n s")
  case None
  then show ?thesis .
next
  case (Some res)
  show ?thesis
  proof (cases res)
    case (Inl e)
    with Some len render_times_no_fault[of s n e] show ?thesis by simp
  next
    case (Inr t)
    with Some have run: "render_times n s = Some (Inr t)" by simp
    from render_times_low[OF low len run]
    have "\<forall>i. i |\<in>| changed_indeces t \<longrightarrow> i < 240"
      and "fcard (changed_indeces t) = fcard (changed_indeces s) + 4 * n" by simp_all
    with fcard_below[of "changed_indeces t" 240] many show ?thesis by simp
  qed
qed

subsection \<open>Running the model on given random values\<close>

lemma draw_hit: "shd r mod 240 |\<notin>| S \<Longrightarrow> draw S r = Some (shd r mod 240, stl r)"
  by (subst draw.simps) simp

lemma draw_miss: "shd r mod 240 |\<in>| S \<Longrightarrow> draw S r = draw S (stl r)"
  by (subst draw.simps) simp

lemmas run_defs = sceneRender_def recolor_def recolor_last_def unfinished_def paint_def
  initial_def store_color_def fcard_fempty fcard_finsert_if

lemma upt_240_elem: "i |\<in>| fset_of_list [0..<240] \<longleftrightarrow> i < 240"
  by (simp only: fset_of_list_elem set_upt atLeastLessThan_iff) simp

lemma upt_240_fcard: "fcard (fset_of_list [0..<240]) = 240"
  by (simp only: fcard.rep_eq fset_of_list.rep_eq set_upt card_atLeastLessThan)

lemma upt_elem: "i |\<in>| fset_of_list [a..<b] \<longleftrightarrow> a \<le> i \<and> i < b"
  by (simp only: fset_of_list_elem set_upt atLeastLessThan_iff)

lemma upt_fcard: "fcard (fset_of_list [a..<b]) = b - a"
  by (simp only: fcard.rep_eq fset_of_list.rep_eq set_upt card_atLeastLessThan)






subsection \<open>The loop of \<open>main\<close> and the invariant\<close>

lemma pass_step_painted_ok:
  assumes "pass_step s t" "painted_ok s"
  shows "painted_ok t"
  unfolding painted_ok_def
proof (intro allI impI)
  fix i assume it: "i |\<in>| changed_indeces t"
  from assms(1) have len: "length (sphere t) = length (sphere s)" and col: "g_color t = g_color s"
    by (simp_all add: pass_step_def)
  show "i < length (sphere t) \<and> color (sphere t ! i) = g_color t"
  proof (cases "i |\<in>| changed_indeces s")
    case True
    with assms(2) have a: "i < length (sphere s)" "color (sphere s ! i) = g_color s"
      by (simp_all add: painted_ok_def)
    with assms(1) True have "sphere t ! i = sphere s ! i" by (simp add: pass_step_def)
    with a len col show ?thesis by simp
  next
    case False
    with assms(1) it have "i < length (sphere s) \<and> color (sphere t ! i) = g_color s"
      by (simp add: pass_step_def)
    with len col show ?thesis by simp
  qed
qed

lemma pass_step_touched:
  assumes "pass_step s t" "j < length (sphere s)" "sphere t ! j \<noteq> sphere s ! j"
  shows "j |\<in>| changed_indeces t \<and> j |\<notin>| changed_indeces s"
  using assms unfolding pass_step_def by blast

lemma read_pad_sphere [simp]: "sphere (read_pad up down s) = sphere s"
  by (simp add: read_pad_def choose_color_def Let_def)

lemma set_color_fields [simp]:
  "sphere (set_color s) = sphere s" "changed_indeces (set_color s) = changed_indeces s"
  "selected_color (set_color s) = selected_color s" "prev_color (set_color s) = prev_color s"
  by (simp_all add: set_color_def)

lemma set_color_g:
  "g_color (set_color s) =
     (if selected_color s = 0 then Vec3 1 0 0 else if selected_color s = 1 then Vec3 0 1 0
      else if selected_color s = 2 then Vec3 0 0 1 else g_color s)"
  by (simp add: set_color_def)

lemma choose_color_fields [simp]:
  "sphere (choose_color c s) = sphere s" "selected_color (choose_color c s) = c"
  "prev_color (choose_color c s) = prev_color s" "g_color (choose_color c s) = g_color s"
  "changed_indeces (choose_color c s) = (if prev_color s \<noteq> c then {||} else changed_indeces s)"
  by (simp_all add: choose_color_def Let_def)

lemma frame_Inr:
  "frame up down s = Some (Inr t) \<longleftrightarrow>
     (\<exists>u. sceneRender (set_color (read_pad up down s)) = Some (Inr u) \<and>
          t = u\<lparr>prev_color := selected_color u\<rparr>)"
  by (auto simp: frame_def andthen_Inr)

lemma read_pad_choose:
  "read_pad up down s = choose_color (if up then 2 else if down then 1 else 0) s"
  by (simp add: read_pad_def)

lemma frame_invariant:
  assumes ok: "painted_ok s" and cur: "color_current s" and run: "frame up down s = Some (Inr t)"
  shows "painted_ok t \<and> color_current t"
proof -
  define c :: int where "c = (if up then 2 else if down then 1 else 0)"
  define s' where "s' = set_color (choose_color c s)"
  from run obtain u where u: "sceneRender s' = Some (Inr u)" and t: "t = u\<lparr>prev_color := selected_color u\<rparr>"
    by (auto simp: frame_Inr read_pad_choose c_def s'_def)
  have c012: "c = 0 \<or> c = 1 \<or> c = 2" by (simp add: c_def)
  have sel: "selected_color s' = c" by (simp add: s'_def)
  have ok': "painted_ok s'"
  proof (cases "prev_color s = c")
    case True
    with cur have "g_color s' = g_color s"
      by (auto simp: s'_def color_current_def set_color_g split: if_splits)
    with ok True show ?thesis by (simp add: painted_ok_def s'_def)
  next
    case False
    then show ?thesis by (simp add: painted_ok_def s'_def)
  qed
  have cur': "g_color (set_color (s'\<lparr>selected_color := c\<rparr>)) = g_color s'"
    using c012 by (auto simp: s'_def set_color_g)
  from sceneRender_step[OF u] have st: "pass_step s' u" .
  then have f: "g_color u = g_color s'" "selected_color u = c"
    using sel by (simp_all add: pass_step_def)
  from pass_step_painted_ok[OF st ok'] have "painted_ok u" .
  then have "painted_ok t" by (simp add: painted_ok_def t)
  moreover have "color_current t"
    using c012 f cur' by (auto simp: color_current_def t set_color_g)
  ultimately show ?thesis by simp
qed

subsection \<open>The size of the set\<close>

lemma pass_step_fcard: "pass_step s t \<Longrightarrow> fcard (changed_indeces s) \<le> fcard (changed_indeces t)"
  by (simp add: pass_step_def fcard_mono)


lemma paint_bound:
  "unfinished s \<Longrightarrow> paint s = Some (Inr t) \<Longrightarrow> fcard (changed_indeces t) \<le> length (sphere t)"
  using paint_fcard[of s t] paint_length[of s t] by (simp add: unfinished_def)

lemma recolor_bound:
  assumes "fcard (changed_indeces s) \<le> length (sphere s)" "recolor s = Some (Inr t)"
  shows "fcard (changed_indeces t) \<le> length (sphere t)"
proof (cases "unfinished s")
  case True
  with assms(2) have "paint s = Some (Inr t)" by (simp add: recolor_def)
  with True show ?thesis by (rule paint_bound)
next
  case False
  with assms show ?thesis by (simp add: recolor_def)
qed

lemma recolor_last_bound:
  assumes "fcard (changed_indeces s) \<le> length (sphere s)" "recolor_last s = Some (Inr t)"
  shows "fcard (changed_indeces t) \<le> length (sphere t)"
proof (cases "unfinished s")
  case True
  with assms(2) have "paint s = Some (Inr t)" by (simp add: recolor_last_def)
  with True show ?thesis by (rule paint_bound)
next
  case False
  with assms have "t = s\<lparr>is_changing_color := False\<rparr>" by (simp add: recolor_last_def)
  with assms(1) show ?thesis by simp
qed

lemma sceneRender_bound:
  assumes "fcard (changed_indeces s) \<le> length (sphere s)" "sceneRender s = Some (Inr t)"
  shows "fcard (changed_indeces t) \<le> length (sphere t)"
proof -
  from assms(2) obtain s1 s2 s3 where
    b1: "recolor s = Some (Inr s1)" and b2: "recolor s1 = Some (Inr s2)" and
    b3: "recolor s2 = Some (Inr s3)" and b4: "recolor_last s3 = Some (Inr t)"
    by (auto simp: sceneRender_Inr)
  note recolor_bound[OF assms(1) b1]
  note recolor_bound[OF this b2]
  note recolor_bound[OF this b3]
  then show ?thesis using b4 by (rule recolor_last_bound)
qed

lemma frame_bound:
  assumes "fcard (changed_indeces s) \<le> length (sphere s)" "frame up down s = Some (Inr t)"
  shows "fcard (changed_indeces t) \<le> length (sphere t) \<and> length (sphere t) = length (sphere s)"
proof -
  define s' where "s' = set_color (read_pad up down s)"
  from assms(2) obtain u where u: "sceneRender s' = Some (Inr u)"
    and t: "t = u\<lparr>prev_color := selected_color u\<rparr>"
    by (auto simp: frame_Inr s'_def)
  from assms(1) have "fcard (changed_indeces s') \<le> length (sphere s')"
    by (simp add: s'_def read_pad_choose fcard_fempty)
  from sceneRender_bound[OF this u] have "fcard (changed_indeces u) \<le> length (sphere u)" .
  moreover from sceneRender_step[OF u] have "length (sphere u) = length (sphere s)"
    by (simp add: pass_step_def s'_def)
  ultimately show ?thesis by (simp add: t)
qed

lemma frames_bound:
  "fcard (changed_indeces s) \<le> length (sphere s) \<Longrightarrow> frames bs s = Some (Inr t) \<Longrightarrow>
     fcard (changed_indeces t) \<le> length (sphere t) \<and> length (sphere t) = length (sphere s)"
proof (induction bs arbitrary: s)
  case Nil
  then show ?case by simp
next
  case (Cons b bs)
  from Cons.prems(2) obtain u where u: "frame (fst b) (snd b) s = Some (Inr u)"
    and rest: "frames bs u = Some (Inr t)"
    by (auto simp: andthen_Inr)
  from frame_bound[OF Cons.prems(1) u]
  have bu: "fcard (changed_indeces u) \<le> length (sphere u)" and lu: "length (sphere u) = length (sphere s)"
    by simp_all
  from Cons.IH[OF bu rest] lu show ?case by simp
qed

lemma frame_no_clear:
  assumes "frame up down s = Some (Inr t)" "prev_color s = selected_color t"
  shows "fcard (changed_indeces s) \<le> fcard (changed_indeces t)"
proof -
  define c :: int where "c = (if up then 2 else if down then 1 else 0)"
  define s' where "s' = set_color (choose_color c s)"
  from assms(1) obtain u where u: "sceneRender s' = Some (Inr u)"
    and t: "t = u\<lparr>prev_color := selected_color u\<rparr>"
    by (auto simp: frame_Inr read_pad_choose s'_def c_def)
  from sceneRender_step[OF u] have st: "pass_step s' u" .
  then have "selected_color u = c" by (simp add: pass_step_def s'_def)
  with assms(2) t have "prev_color s = c" by simp
  then have "changed_indeces s' = changed_indeces s" by (simp add: s'_def)
  with pass_step_fcard[OF st] t show ?thesis by simp
qed



subsection \<open>The flag \<open>is_changing_color\<close>\<close>

lemma wipe_simps [simp]:
  "wipe c None = None"
  "wipe c (Some (Inl e)) = Some (Inl e)"
  "wipe c (Some (Inr t)) = Some (Inr (t\<lparr>is_changing_color := c\<rparr>))"
  by (simp_all add: wipe_def)

lemma paint_flag: "paint (s\<lparr>is_changing_color := c\<rparr>) = wipe c (paint s)"
  by (simp add: paint_def store_color_def split: option.splits)

lemma wipe_wipe: "wipe c (wipe b m) = wipe c m"
proof (cases m)
  case None
  then show ?thesis by simp
next
  case (Some res)
  then show ?thesis by (cases res) simp_all
qed

lemma recolor_flag: "wipe c (recolor (s\<lparr>is_changing_color := b\<rparr>)) = wipe c (recolor s)"
  by (simp add: recolor_def unfinished_def paint_flag wipe_wipe)

lemma recolor_last_flag:
  "wipe c (recolor_last (s\<lparr>is_changing_color := b\<rparr>)) = wipe c (recolor_last s)"
  by (simp add: recolor_last_def unfinished_def paint_flag wipe_wipe)

lemma andthen_flag:
  assumes same: "wipe c m = wipe c m'"
    and blind: "\<And>u b. wipe c (f (u\<lparr>is_changing_color := b\<rparr>)) = wipe c (f u)"
  shows "wipe c (andthen m f) = wipe c (andthen m' f)"
proof (cases m)
  case None
  with same show ?thesis by (cases m') (simp_all add: wipe_def)
next
  case (Some res)
  show ?thesis
  proof (cases res)
    case (Inl e)
    with Some same have "m' = Some (Inl e)"
      by (cases m') (auto simp: wipe_def map_sum_def split: sum.splits)
    with Some Inl show ?thesis by simp
  next
    case (Inr u)
    with Some same obtain u' where m': "m' = Some (Inr u')"
      and eq: "u\<lparr>is_changing_color := c\<rparr> = u'\<lparr>is_changing_color := c\<rparr>"
      by (cases m') (auto simp: wipe_def map_sum_def split: sum.splits)
    have "wipe c (f u) = wipe c (f (u\<lparr>is_changing_color := c\<rparr>))" by (simp add: blind)
    also have "\<dots> = wipe c (f (u'\<lparr>is_changing_color := c\<rparr>))" by (simp add: eq)
    also have "\<dots> = wipe c (f u')" by (simp add: blind)
    finally show ?thesis using Some Inr m' by simp
  qed
qed

lemma sceneRender_flag:
  "wipe c (sceneRender (s\<lparr>is_changing_color := b\<rparr>)) = wipe c (sceneRender s)"
  unfolding sceneRender_def
  by (intro andthen_flag recolor_flag recolor_last_flag)

lemma render_times_flag:
  "wipe c (render_times n (s\<lparr>is_changing_color := b\<rparr>)) = wipe c (render_times n s)"
proof (induction n arbitrary: s b)
  case 0
  show ?case by simp
next
  case (Suc n)
  show ?case by (simp only: render_times.simps) (intro andthen_flag sceneRender_flag Suc.IH)
qed

subsection \<open>A run of sixty calls\<close>

text \<open>A random sequence on which every draw succeeds at once: \<open>rand()\<close> returns
  0, 0, 1, 1, 2, 2, ... so the \<open>k\<close>-th block throws \<open>k\<close> away and then draws \<open>k\<close>.\<close>

lemma paint_next:
  assumes set_k: "changed_indeces s = fset_of_list [0..<k]"
    and src: "rand_src s = smap (\<lambda>n. n div 2) (fromN (2 * k))"
    and k: "k < 240" and len: "length (sphere s) = 720"
  shows "\<exists>t. paint s = Some (Inr t) \<and> changed_indeces t = fset_of_list [0..<Suc k] \<and>
             rand_src t = smap (\<lambda>n. n div 2) (fromN (2 * Suc k)) \<and> length (sphere t) = 720"
proof -
  let ?r = "smap (\<lambda>n. n div 2) (fromN (Suc (2 * k)))"
  have r1: "stl (rand_src s) = ?r" by (simp add: src)
  have hd: "shd ?r mod 240 = k" using k by simp
  have nin: "k |\<notin>| fset_of_list [0..<k]" by (simp add: upt_elem del: fset_of_list_simps)
  have "shd ?r mod 240 |\<notin>| changed_indeces s" unfolding set_k hd by (rule nin)
  from draw_hit[OF this] hd have d: "draw (changed_indeces s) ?r = Some (k, stl ?r)" by simp
  have r2: "stl ?r = smap (\<lambda>n. n div 2) (fromN (2 * Suc k))" by simp
  have grow: "finsert k (fset_of_list [0..<k]) = fset_of_list [0..<Suc k]"
    by (simp add: fset_of_list_elem) 
  from d r1 k len have "paint s = Some (Inr (store_color k (s\<lparr>rand_src := stl ?r\<rparr>)))"
    by (simp add: paint_def)
  moreover have "changed_indeces (store_color k (s\<lparr>rand_src := stl ?r\<rparr>)) = fset_of_list [0..<Suc k]"
    using grow by (simp add: store_color_def set_k del: fset_of_list_simps upt_Suc)
  moreover have "rand_src (store_color k (s\<lparr>rand_src := stl ?r\<rparr>)) = smap (\<lambda>n. n div 2) (fromN (2 * Suc k))"
    using r2 by (simp add: store_color_def)
  moreover have "length (sphere (store_color k (s\<lparr>rand_src := stl ?r\<rparr>))) = 720"
    using len by (simp add: store_color_def)
  ultimately show ?thesis by blast
qed

lemma sceneRender_next:
  assumes set_k: "changed_indeces s = fset_of_list [0..<k]"
    and src: "rand_src s = smap (\<lambda>n. n div 2) (fromN (2 * k))"
    and k: "k + 4 \<le> 240" and len: "length (sphere s) = 720"
  shows "\<exists>t. sceneRender s = Some (Inr t) \<and> changed_indeces t = fset_of_list [0..<k + 4] \<and>
             rand_src t = smap (\<lambda>n. n div 2) (fromN (2 * (k + 4))) \<and> length (sphere t) = 720"
proof -
  have g: "unfinished u" if "changed_indeces u = fset_of_list [0..<j]" "j < 240" "length (sphere u) = 720" for u j
    using that by (simp add: unfinished_def upt_fcard del: fset_of_list_simps)
  from k have k0: "k < 240" and k1: "Suc k < 240" and k2: "Suc (Suc k) < 240"
    and k3: "Suc (Suc (Suc k)) < 240" by simp_all
  from paint_next[OF set_k src k0 len] obtain s1 where
    p1: "paint s = Some (Inr s1)" and c1: "changed_indeces s1 = fset_of_list [0..<Suc k]"
    and r1: "rand_src s1 = smap (\<lambda>n. n div 2) (fromN (2 * Suc k))" and l1: "length (sphere s1) = 720"
    by blast
  from paint_next[OF c1 r1 k1 l1] obtain s2 where
    p2: "paint s1 = Some (Inr s2)" and c2: "changed_indeces s2 = fset_of_list [0..<Suc (Suc k)]"
    and r2: "rand_src s2 = smap (\<lambda>n. n div 2) (fromN (2 * Suc (Suc k)))" and l2: "length (sphere s2) = 720"
    by blast
  from paint_next[OF c2 r2 k2 l2] obtain s3 where
    p3: "paint s2 = Some (Inr s3)" and c3: "changed_indeces s3 = fset_of_list [0..<Suc (Suc (Suc k))]"
    and r3: "rand_src s3 = smap (\<lambda>n. n div 2) (fromN (2 * Suc (Suc (Suc k))))"
    and l3: "length (sphere s3) = 720"
    by blast
  from paint_next[OF c3 r3 k3 l3] obtain t where
    p4: "paint s3 = Some (Inr t)" and c4: "changed_indeces t = fset_of_list [0..<Suc (Suc (Suc (Suc k)))]"
    and r4: "rand_src t = smap (\<lambda>n. n div 2) (fromN (2 * Suc (Suc (Suc (Suc k)))))"
    and l4: "length (sphere t) = 720"
    by blast
  have "recolor s = Some (Inr s1)" using p1 g[OF set_k k0 len] by (simp add: recolor_def)
  moreover have "recolor s1 = Some (Inr s2)" using p2 g[OF c1 k1 l1] by (simp add: recolor_def)
  moreover have "recolor s2 = Some (Inr s3)" using p3 g[OF c2 k2 l2] by (simp add: recolor_def)
  moreover have "recolor_last s3 = Some (Inr t)" using p4 g[OF c3 k3 l3] by (simp add: recolor_last_def)
  ultimately have "sceneRender s = Some (Inr t)" by (simp add: sceneRender_def)
  moreover have e: "Suc (Suc (Suc (Suc k))) = k + 4" by simp
  ultimately show ?thesis using c4[unfolded e] r4[unfolded e] l4 by blast
qed

lemma render_times_next:
  "changed_indeces s = fset_of_list [0..<k] \<Longrightarrow>
   rand_src s = smap (\<lambda>n. n div 2) (fromN (2 * k)) \<Longrightarrow>
   k + 4 * n \<le> 240 \<Longrightarrow> length (sphere s) = 720 \<Longrightarrow>
   \<exists>t. render_times n s = Some (Inr t) \<and> changed_indeces t = fset_of_list [0..<k + 4 * n]"
proof (induction n arbitrary: s k)
  case 0
  then show ?case by simp
next
  case (Suc n)
  from Suc.prems(3) have k4: "k + 4 \<le> 240" and rest: "(k + 4) + 4 * n \<le> 240" by simp_all
  from sceneRender_next[OF Suc.prems(1,2) k4 Suc.prems(4)] obtain u where
    u: "sceneRender s = Some (Inr u)" and cu: "changed_indeces u = fset_of_list [0..<k + 4]"
    and ru: "rand_src u = smap (\<lambda>n. n div 2) (fromN (2 * (k + 4)))" and lu: "length (sphere u) = 720"
    by blast
  from Suc.IH[OF cu ru rest lu] obtain t where
    "render_times n u = Some (Inr t)" "changed_indeces t = fset_of_list [0..<k + 4 + 4 * n]"
    by blast
  with u show ?case by (simp add: add.assoc del: fset_of_list_simps upt_Suc)
qed

lemma sixty_calls_can_return:
  "\<exists>t. render_times 60 (initial (replicate 720 v) (smap (\<lambda>n. n div 2) (fromN 0))) = Some (Inr t) \<and>
       changed_indeces t = fset_of_list [0..<240]"
proof -
  let ?s = "initial (replicate 720 v) (smap (\<lambda>n. n div 2) (fromN 0))"
  have a: "changed_indeces ?s = fset_of_list [0..<0]" by (simp add: initial_def)
  have b: "rand_src ?s = smap (\<lambda>n. n div 2) (fromN (2 * 0))" by (simp add: initial_def)
  have c: "0 + 4 * 60 \<le> (240::nat)" by simp
  have d: "length (sphere ?s) = 720" by (simp add: initial_def)
  from render_times_next[OF a b c d] show ?thesis by (simp del: fset_of_list_simps upt_rec_numeral)
qed

lemma sixty_calls_fill_the_range:
  assumes empty: "changed_indeces s = {||}" and len: "length (sphere s) = 720"
    and run: "render_times 60 s = Some (Inr t)"
  shows "(\<forall>i<240. i |\<in>| changed_indeces t) \<and> unfinished t"
proof -
  from empty have low: "\<forall>i. i |\<in>| changed_indeces s \<longrightarrow> i < 240" by simp
  from len have len': "240 < length (sphere s)" by simp
  from render_times_low[OF low len' run] empty
  have lowt: "\<forall>i. i |\<in>| changed_indeces t \<longrightarrow> i < 240"
    and lent: "length (sphere t) = length (sphere s)"
    and card: "fcard (changed_indeces t) = 240" by (simp_all add: fcard_fempty)
  from lowt lent len' have "unfinished t" by (simp add: low_unfinished)
  moreover have "\<forall>i<240. i |\<in>| changed_indeces t"
    using fcard_full[OF lowt card] by blast
  ultimately show ?thesis by simp
qed

section \<open>The claims\<close>

text \<open>
  C1. The claim: in a block whose guard holds, the index is drawn over the whole range
  0 to 719 of the mesh. The code computes \<open>rand() % 240\<close>: on a mesh of 720 vertices and
  an empty set, when \<open>rand()\<close> returns 7 (thrown away) and then 500, the first block
  recolours vertex 20 and inserts 20, although vertex 500 exists and is not in the set.
\<close>

theorem recolor_index_is_rand_mod_240:
  "recolor (initial (replicate 720 v) (7 ## 500 ## r)) =
     Some (Inr ((initial (replicate 720 v) r)
        \<lparr>sphere := (replicate 720 v)[20 := v\<lparr>color := Vec3 1 0 0\<rparr>],
         changed_indeces := {|20|}\<rparr>))"
  by (simp add: run_defs draw_hit)

text \<open>
  C2. The claim: 180 calls from the empty set fill the set to 720 indices. In the code, from
  an empty set and a mesh of 720 vertices, no run of 61 or more calls of \<open>sceneRender\<close>
  returns, whatever values \<open>rand()\<close> yields: the guard compares with 720, the indices
  are below 240, and after 60 calls no index is left to draw.
\<close>

theorem render_times_61_never_returns:
  assumes "changed_indeces s = {||}" and "length (sphere s) = 720" and "61 \<le> n"
  shows "render_times n s = None"
proof -
  from assms(1) have "\<forall>i. i |\<in>| changed_indeces s \<longrightarrow> i < 240" by simp
  moreover from assms(2) have "240 < length (sphere s)" by simp
  moreover from assms(3) have "240 < fcard (changed_indeces s) + 4 * n" by simp
  ultimately show ?thesis by (rule render_times_stuck)
qed

theorem render_times_61_never_returns_witness:
  "changed_indeces (initial (replicate 720 \<lparr>position = Vec3 0 0 0, color = Vec3 1 1 1\<rparr>) (11 ## 3 ## 3 ## 243 ## 500 ## 0 ## 719 ## 5 ## 20 ## 260 ## 240 ## sconst 0)) = {||} \<and>
   length (sphere (initial (replicate 720 \<lparr>position = Vec3 0 0 0, color = Vec3 1 1 1\<rparr>) (11 ## 3 ## 3 ## 243 ## 500 ## 0 ## 719 ## 5 ## 20 ## 260 ## 240 ## sconst 0))) = 720 \<and>
   (61::nat) \<le> 180 \<and>
   render_times 180 (initial (replicate 720 \<lparr>position = Vec3 0 0 0, color = Vec3 1 1 1\<rparr>) (11 ## 3 ## 3 ## 243 ## 500 ## 0 ## 719 ## 5 ## 20 ## 260 ## 240 ## sconst 0)) = None"
  using render_times_61_never_returns
    [of "initial (replicate 720 \<lparr>position = Vec3 0 0 0, color = Vec3 1 1 1\<rparr>) (11 ## 3 ## 3 ## 243 ## 500 ## 0 ## 719 ## 5 ## 20 ## 260 ## 240 ## sconst 0)" 180]
  by (simp add: initial_def)

text \<open>
  C3. The claim: whenever the guard holds, the sampling loop ends. In the code, once the set
  holds every index below 240 while the guard (size below the number of vertices) still
  holds, the loop never reaches its \<open>break\<close> for any random sequence, so neither the
  block nor \<open>sceneRender\<close> returns. That state is the one reached after 60 returning calls
  from the empty set on a mesh of 720 vertices: there the guard holds and the next call
  never returns.
\<close>

theorem full_range_draw_never_ends:
  "((\<forall>i<240. i |\<in>| changed_indeces s) \<and> unfinished s \<longrightarrow>
      draw (changed_indeces s) r = None \<and> recolor s = None \<and> recolor_last s = None \<and>
      sceneRender s = None) \<and>
   (changed_indeces s0 = {||} \<and> length (sphere s0) = 720 \<and> render_times 60 s0 = Some (Inr t) \<longrightarrow>
      unfinished t \<and> draw (changed_indeces t) r = None \<and> sceneRender t = None)"
proof -
  have stuck: "draw (changed_indeces u) r = None \<and> recolor u = None \<and> recolor_last u = None \<and>
      sceneRender u = None"
    if full: "\<forall>i<240. i |\<in>| changed_indeces u" and guard: "unfinished u" for u
  proof -
    have d: "draw (changed_indeces u) q = None" for q
      using full by (rule draw_full)
    then have "paint u = None" by (simp add: paint_def)
    with guard show ?thesis by (simp add: d recolor_def recolor_last_def sceneRender_def)
  qed
  have "unfinished t \<and> draw (changed_indeces t) r = None \<and> sceneRender t = None"
    if "changed_indeces s0 = {||} \<and> length (sphere s0) = 720 \<and> render_times 60 s0 = Some (Inr t)"
  proof -
    from that sixty_calls_fill_the_range[of s0 t]
    have full: "\<forall>i<240. i |\<in>| changed_indeces t" and guard: "unfinished t" by simp_all
    from stuck[OF full guard] guard show ?thesis by simp
  qed
  with stuck show ?thesis by blast
qed

theorem full_range_draw_never_ends_witness:
  "(let s = \<lparr>sphere = replicate 720 \<lparr>position = Vec3 0 0 0, color = Vec3 1 1 1\<rparr>,
             changed_indeces = fset_of_list [0..<240], g_color = Vec3 1 0 0,
             is_changing_color = False, selected_color = 0, prev_color = 0,
             rand_src = 11 ## 3 ## 250 ## sconst 0\<rparr>
    in changed_indeces s = fset_of_list [0..<240] \<and> unfinished s \<and> sceneRender s = None) \<and>
   (\<exists>t. render_times 60 (initial (replicate 720 \<lparr>position = Vec3 0 0 0, color = Vec3 1 1 1\<rparr>) (smap (\<lambda>n. n div 2) (fromN 0))) = Some (Inr t) \<and>
        changed_indeces t = fset_of_list [0..<240] \<and> unfinished t \<and> sceneRender t = None)"
proof -
  let ?s = "\<lparr>sphere = replicate 720 \<lparr>position = Vec3 0 0 0, color = Vec3 1 1 1\<rparr>,
             changed_indeces = fset_of_list [0..<240], g_color = Vec3 1 0 0,
             is_changing_color = False, selected_color = 0, prev_color = 0,
             rand_src = 11 ## 3 ## 250 ## sconst 0\<rparr>"
  let ?init = "initial (replicate 720 \<lparr>position = Vec3 0 0 0, color = Vec3 1 1 1\<rparr>) (smap (\<lambda>n. n div 2) (fromN 0))"
  have a: "\<forall>i<240. i |\<in>| changed_indeces ?s"
    by (simp only: scene.simps upt_240_elem) simp
  have b: "unfinished ?s"
    by (simp only: unfinished_def scene.simps upt_240_fcard length_replicate)
  have c: "changed_indeces ?s = fset_of_list [0..<240]"
    by (simp only: scene.simps)
  from full_range_draw_never_ends[of ?s] a b c
  have first: "changed_indeces ?s = fset_of_list [0..<240] \<and> unfinished ?s \<and> sceneRender ?s = None"
    by blast
  from sixty_calls_can_return[of "\<lparr>position = Vec3 0 0 0, color = Vec3 1 1 1\<rparr>"] obtain t where
    run: "render_times 60 ?init = Some (Inr t)" and set_t: "changed_indeces t = fset_of_list [0..<240]"
    by blast
  have e: "changed_indeces ?init = {||}" and l: "length (sphere ?init) = 720"
    by (simp_all add: initial_def)
  from full_range_draw_never_ends[of _ _ ?init t] e l run
  have "unfinished t \<and> sceneRender t = None" by blast
  with run set_t
  have second: "\<exists>t. render_times 60 ?init = Some (Inr t) \<and>
        changed_indeces t = fset_of_list [0..<240] \<and> unfinished t \<and> sceneRender t = None"
    by blast
  from first second show ?thesis unfolding Let_def by blast
qed

text \<open>
  C4. Every index the sampling loop returns, the only indices ever inserted, is below 240.
  From the empty set and a mesh of 720 vertices, after any number of calls of
  \<open>sceneRender\<close> that return: every index in \<open>changed_indeces\<close> is below 240, the
  vertices 240 to 719 are as they were, the set has at most 240 elements, its size is not
  720, and the guard of the blocks still holds.
\<close>

theorem changed_indeces_stay_below_240:
  assumes run: "render_times n s = Some (Inr t)" and empty: "changed_indeces s = {||}"
    and len: "length (sphere s) = 720"
  shows "(\<forall>S q i q'. draw S q = Some (i, q') \<longrightarrow> i < 240) \<and>
         (\<forall>i. i |\<in>| changed_indeces t \<longrightarrow> i < 240) \<and>
         (\<forall>j. 240 \<le> j \<and> j < 720 \<longrightarrow> sphere t ! j = sphere s ! j) \<and>
         fcard (changed_indeces t) \<le> 240 \<and> fcard (changed_indeces t) \<noteq> 720 \<and> unfinished t"
proof -
  have any_draw: "\<forall>S q i q'. draw S q = Some (i, q') \<longrightarrow> i < 240"
    by (auto dest: draw_Some)
  from empty have low: "\<forall>i. i |\<in>| changed_indeces s \<longrightarrow> i < 240" by simp
  from len have len': "240 < length (sphere s)" by simp
  from render_times_low[OF low len' run]
  have lowt: "\<forall>i. i |\<in>| changed_indeces t \<longrightarrow> i < 240"
    and lent: "length (sphere t) = length (sphere s)" by simp_all
  from fcard_below[OF lowt] have card: "fcard (changed_indeces t) \<le> 240" .
  have keep: "sphere t ! j = sphere s ! j" if "240 \<le> j \<and> j < 720" for j
  proof -
    from that lowt have "j |\<notin>| changed_indeces t" by auto
    with render_times_step[OF run] that len show ?thesis by (simp add: pass_step_def)
  qed
  from lowt lent len' have "unfinished t" by (simp add: low_unfinished)
  with any_draw lowt keep card show ?thesis by simp
qed

theorem changed_indeces_stay_below_240_witness:
  "render_times (Suc 0) (initial (replicate 720 \<lparr>position = Vec3 0 0 0, color = Vec3 1 1 1\<rparr>) (11 ## 3 ## 3 ## 243 ## 500 ## 0 ## 719 ## 5 ## 20 ## 260 ## 240 ## sconst 0)) =
     Some (Inr \<lparr>sphere = (replicate 720 \<lparr>position = Vec3 0 0 0, color = Vec3 1 1 1\<rparr>)
                   [3 := \<lparr>position = Vec3 0 0 0, color = Vec3 1 0 0\<rparr>,
                    20 := \<lparr>position = Vec3 0 0 0, color = Vec3 1 0 0\<rparr>,
                    239 := \<lparr>position = Vec3 0 0 0, color = Vec3 1 0 0\<rparr>,
                    0 := \<lparr>position = Vec3 0 0 0, color = Vec3 1 0 0\<rparr>],
                changed_indeces = {|0, 239, 20, 3|}, g_color = Vec3 1 0 0, is_changing_color = False,
                selected_color = 0, prev_color = 0, rand_src = sconst 0\<rparr>) \<and>
   fcard {|0, 239, 20, 3::nat|} \<le> 240 \<and> fcard {|0, 239, 20, 3::nat|} \<noteq> 720"
proof -
  let ?s = "initial (replicate 720 \<lparr>position = Vec3 0 0 0, color = Vec3 1 1 1\<rparr>) (11 ## 3 ## 3 ## 243 ## 500 ## 0 ## 719 ## 5 ## 20 ## 260 ## 240 ## sconst 0)"
  let ?t = "\<lparr>sphere = (replicate 720 \<lparr>position = Vec3 0 0 0, color = Vec3 1 1 1\<rparr>)
                   [3 := \<lparr>position = Vec3 0 0 0, color = Vec3 1 0 0\<rparr>,
                    20 := \<lparr>position = Vec3 0 0 0, color = Vec3 1 0 0\<rparr>,
                    239 := \<lparr>position = Vec3 0 0 0, color = Vec3 1 0 0\<rparr>,
                    0 := \<lparr>position = Vec3 0 0 0, color = Vec3 1 0 0\<rparr>],
                changed_indeces = {|0, 239, 20, 3|}, g_color = Vec3 1 0 0, is_changing_color = False,
                selected_color = 0, prev_color = 0, rand_src = sconst 0\<rparr>"
  have run: "render_times (Suc 0) ?s = Some (Inr ?t)"
    by (simp add: run_defs draw_hit draw_miss)
  have empty: "changed_indeces ?s = {||}" and len: "length (sphere ?s) = 720"
    by (simp_all add: initial_def)
  from changed_indeces_stay_below_240[OF run empty len] run show ?thesis by simp
qed




text \<open>
  C6. Over any sequence of iterations of the loop of \<open>main\<close>, a set whose size is at
  most the number of vertices (720 for the mesh of the program) keeps a size of at most that
  number, and the mesh keeps its size; the same holds for one call of \<open>sceneRender\<close>. The
  size never decreases over calls of \<open>sceneRender\<close>, nor over an iteration that does not
  clear the set; the clear on a change of the selected colour leaves the size 0, and
  without a change the set is kept.
\<close>

theorem changed_indeces_size_bounded_and_growing:
  "(fcard (changed_indeces s) \<le> length (sphere s) \<and> frames bs s = Some (Inr t) \<longrightarrow>
      fcard (changed_indeces t) \<le> length (sphere t) \<and> length (sphere t) = length (sphere s)) \<and>
   (fcard (changed_indeces s) \<le> length (sphere s) \<and> sceneRender s = Some (Inr t) \<longrightarrow>
      fcard (changed_indeces t) \<le> length (sphere t)) \<and>
   (render_times n s = Some (Inr t) \<longrightarrow> fcard (changed_indeces s) \<le> fcard (changed_indeces t)) \<and>
   (frame up down s = Some (Inr t) \<and> prev_color s = selected_color t \<longrightarrow>
      fcard (changed_indeces s) \<le> fcard (changed_indeces t)) \<and>
   (prev_color s \<noteq> c \<longrightarrow> fcard (changed_indeces (choose_color c s)) = 0) \<and>
   (prev_color s = c \<longrightarrow> changed_indeces (choose_color c s) = changed_indeces s)"
proof (intro conjI impI)
  assume "fcard (changed_indeces s) \<le> length (sphere s) \<and> frames bs s = Some (Inr t)"
  with frames_bound[of s bs t]
  show "fcard (changed_indeces t) \<le> length (sphere t)" "length (sphere t) = length (sphere s)"
    by simp_all
next
  assume "fcard (changed_indeces s) \<le> length (sphere s) \<and> sceneRender s = Some (Inr t)"
  with sceneRender_bound[of s t] show "fcard (changed_indeces t) \<le> length (sphere t)" by simp
next
  assume "render_times n s = Some (Inr t)"
  then have "pass_step s t" by (rule render_times_step)
  then show "fcard (changed_indeces s) \<le> fcard (changed_indeces t)" by (rule pass_step_fcard)
next
  assume "frame up down s = Some (Inr t) \<and> prev_color s = selected_color t"
  with frame_no_clear[of up down s t] show "fcard (changed_indeces s) \<le> fcard (changed_indeces t)"
    by simp
next
  assume "prev_color s \<noteq> c"
  then show "fcard (changed_indeces (choose_color c s)) = 0" by simp
next
  assume "prev_color s = c"
  then show "changed_indeces (choose_color c s) = changed_indeces s" by simp
qed


theorem changed_indeces_size_bounded_and_growing_witness:
  "let s = initial (replicate 720 \<lparr>position = Vec3 0 0 0, color = Vec3 1 1 1\<rparr>)
          (0 ## 1 ## 0 ## 2 ## 0 ## 3 ## 0 ## 4 ## 0 ## 2 ## 0 ## 1 ## 0 ## 250 ## 0 ## 724 ## sconst 0);
       t = \<lparr>sphere = (replicate 720 \<lparr>position = Vec3 0 0 0, color = Vec3 1 1 1\<rparr>)
                 [1 := \<lparr>position = Vec3 0 0 0, color = Vec3 1 0 0\<rparr>,
                  2 := \<lparr>position = Vec3 0 0 0, color = Vec3 1 0 0\<rparr>,
                  3 := \<lparr>position = Vec3 0 0 0, color = Vec3 1 0 0\<rparr>,
                  4 := \<lparr>position = Vec3 0 0 0, color = Vec3 1 0 0\<rparr>,
                  2 := \<lparr>position = Vec3 0 0 0, color = Vec3 0 0 1\<rparr>,
                  1 := \<lparr>position = Vec3 0 0 0, color = Vec3 0 0 1\<rparr>,
                  10 := \<lparr>position = Vec3 0 0 0, color = Vec3 0 0 1\<rparr>,
                  4 := \<lparr>position = Vec3 0 0 0, color = Vec3 0 0 1\<rparr>],
             changed_indeces = {|4, 10, 1, 2|}, g_color = Vec3 0 0 1, is_changing_color = True,
             selected_color = 2, prev_color = 2, rand_src = sconst 0\<rparr>
   in fcard (changed_indeces s) \<le> length (sphere s) \<and>
      frames [(False, False), (True, False)] s = Some (Inr t) \<and>
      fcard (changed_indeces t) \<le> length (sphere t) \<and>
      length (sphere t) = length (sphere s)"
proof -
  let ?s = "initial (replicate 720 \<lparr>position = Vec3 0 0 0, color = Vec3 1 1 1\<rparr>)
          (0 ## 1 ## 0 ## 2 ## 0 ## 3 ## 0 ## 4 ## 0 ## 2 ## 0 ## 1 ## 0 ## 250 ## 0 ## 724 ## sconst 0)"
  let ?t = "\<lparr>sphere = (replicate 720 \<lparr>position = Vec3 0 0 0, color = Vec3 1 1 1\<rparr>)
                 [1 := \<lparr>position = Vec3 0 0 0, color = Vec3 1 0 0\<rparr>,
                  2 := \<lparr>position = Vec3 0 0 0, color = Vec3 1 0 0\<rparr>,
                  3 := \<lparr>position = Vec3 0 0 0, color = Vec3 1 0 0\<rparr>,
                  4 := \<lparr>position = Vec3 0 0 0, color = Vec3 1 0 0\<rparr>,
                  2 := \<lparr>position = Vec3 0 0 0, color = Vec3 0 0 1\<rparr>,
                  1 := \<lparr>position = Vec3 0 0 0, color = Vec3 0 0 1\<rparr>,
                  10 := \<lparr>position = Vec3 0 0 0, color = Vec3 0 0 1\<rparr>,
                  4 := \<lparr>position = Vec3 0 0 0, color = Vec3 0 0 1\<rparr>],
             changed_indeces = {|4, 10, 1, 2|}, g_color = Vec3 0 0 1, is_changing_color = True,
             selected_color = 2, prev_color = 2, rand_src = sconst 0\<rparr>"
  have a: "fcard (changed_indeces ?s) \<le> length (sphere ?s)"
    by (simp add: initial_def fcard_fempty)
  have b: "frames [(False, False), (True, False)] ?s = Some (Inr ?t)"
    by (simp add: frame_def read_pad_def choose_color_def set_color_def run_defs draw_hit draw_miss)
  from changed_indeces_size_bounded_and_growing[of ?s "[(False, False), (True, False)]" ?t] a b
  show ?thesis unfolding Let_def by blast
qed



text \<open>
  C8. A call of \<open>sceneRender\<close> preserves the invariant that every index of the set has a
  vertex of the current colour, and leaves the colour as it is; a vertex that a call changes
  has its index added to the set by that call. An iteration of the loop of \<open>main\<close>
  preserves the invariant too (when the colour changes, the set has been cleared), and the
  invariant holds at program start.
\<close>

theorem recolored_vertices_carry_the_color:
  "(painted_ok s \<and> sceneRender s = Some (Inr t) \<longrightarrow> painted_ok t \<and> g_color t = g_color s) \<and>
   (sceneRender s = Some (Inr t) \<and> j < length (sphere s) \<and> sphere t ! j \<noteq> sphere s ! j \<longrightarrow>
      j |\<in>| changed_indeces t \<and> j |\<notin>| changed_indeces s) \<and>
   (painted_ok s \<and> color_current s \<and> frame up down s = Some (Inr t) \<longrightarrow>
      painted_ok t \<and> color_current t) \<and>
   painted_ok (initial m r) \<and> color_current (initial m r)"
proof (intro conjI impI)
  assume a: "painted_ok s \<and> sceneRender s = Some (Inr t)"
  then have st: "pass_step s t" by (simp add: sceneRender_step)
  with a show "painted_ok t" by (simp add: pass_step_painted_ok)
  from st show "g_color t = g_color s" by (simp add: pass_step_def)
next
  assume a: "sceneRender s = Some (Inr t) \<and> j < length (sphere s) \<and> sphere t ! j \<noteq> sphere s ! j"
  then have st: "pass_step s t" by (simp add: sceneRender_step)
  from pass_step_touched[OF st] a show "j |\<in>| changed_indeces t" "j |\<notin>| changed_indeces s"
    by simp_all
next
  assume a: "painted_ok s \<and> color_current s \<and> frame up down s = Some (Inr t)"
  with frame_invariant[of s up down t] show "painted_ok t" "color_current t" by simp_all
next
  show "painted_ok (initial m r)" by (simp add: painted_ok_def initial_def)
  show "color_current (initial m r)" by (simp add: color_current_def initial_def set_color_def)
qed


theorem recolored_vertices_carry_the_color_witness:
  "painted_ok
     \<lparr>sphere = (replicate 720 \<lparr>position = Vec3 0 0 0, color = Vec3 1 1 1\<rparr>)
                 [3 := \<lparr>position = Vec3 0 0 0, color = Vec3 1 0 0\<rparr>],
      changed_indeces = {|3|}, g_color = Vec3 1 0 0, is_changing_color = False,
      selected_color = 0, prev_color = 0,
      rand_src = 1 ## 3 ## 1 ## 243 ## 10 ## 0 ## 500 ## 0 ## 239 ## sconst 0\<rparr> \<and>
   color_current
     \<lparr>sphere = (replicate 720 \<lparr>position = Vec3 0 0 0, color = Vec3 1 1 1\<rparr>)
                 [3 := \<lparr>position = Vec3 0 0 0, color = Vec3 1 0 0\<rparr>],
      changed_indeces = {|3|}, g_color = Vec3 1 0 0, is_changing_color = False,
      selected_color = 0, prev_color = 0,
      rand_src = 1 ## 3 ## 1 ## 243 ## 10 ## 0 ## 500 ## 0 ## 239 ## sconst 0\<rparr> \<and>
   frame True False
     \<lparr>sphere = (replicate 720 \<lparr>position = Vec3 0 0 0, color = Vec3 1 1 1\<rparr>)
                 [3 := \<lparr>position = Vec3 0 0 0, color = Vec3 1 0 0\<rparr>],
      changed_indeces = {|3|}, g_color = Vec3 1 0 0, is_changing_color = False,
      selected_color = 0, prev_color = 0,
      rand_src = 1 ## 3 ## 1 ## 243 ## 10 ## 0 ## 500 ## 0 ## 239 ## sconst 0\<rparr> =
   Some (Inr
     \<lparr>sphere = (replicate 720 \<lparr>position = Vec3 0 0 0, color = Vec3 1 1 1\<rparr>)
                 [3 := \<lparr>position = Vec3 0 0 0, color = Vec3 0 0 1\<rparr>,
                  10 := \<lparr>position = Vec3 0 0 0, color = Vec3 0 0 1\<rparr>,
                  20 := \<lparr>position = Vec3 0 0 0, color = Vec3 0 0 1\<rparr>,
                  239 := \<lparr>position = Vec3 0 0 0, color = Vec3 0 0 1\<rparr>],
      changed_indeces = {|239, 20, 10, 3|}, g_color = Vec3 0 0 1, is_changing_color = True,
      selected_color = 2, prev_color = 2, rand_src = sconst 0\<rparr>) \<and>
   painted_ok
     \<lparr>sphere = (replicate 720 \<lparr>position = Vec3 0 0 0, color = Vec3 1 1 1\<rparr>)
                 [3 := \<lparr>position = Vec3 0 0 0, color = Vec3 0 0 1\<rparr>,
                  10 := \<lparr>position = Vec3 0 0 0, color = Vec3 0 0 1\<rparr>,
                  20 := \<lparr>position = Vec3 0 0 0, color = Vec3 0 0 1\<rparr>,
                  239 := \<lparr>position = Vec3 0 0 0, color = Vec3 0 0 1\<rparr>],
      changed_indeces = {|239, 20, 10, 3|}, g_color = Vec3 0 0 1, is_changing_color = True,
      selected_color = 2, prev_color = 2, rand_src = sconst 0\<rparr>"
proof -
  let ?s = "\<lparr>sphere = (replicate 720 \<lparr>position = Vec3 0 0 0, color = Vec3 1 1 1\<rparr>)
                 [3 := \<lparr>position = Vec3 0 0 0, color = Vec3 1 0 0\<rparr>],
      changed_indeces = {|3|}, g_color = Vec3 1 0 0, is_changing_color = False,
      selected_color = 0, prev_color = 0,
      rand_src = 1 ## 3 ## 1 ## 243 ## 10 ## 0 ## 500 ## 0 ## 239 ## sconst 0\<rparr>"
  let ?t = "\<lparr>sphere = (replicate 720 \<lparr>position = Vec3 0 0 0, color = Vec3 1 1 1\<rparr>)
                 [3 := \<lparr>position = Vec3 0 0 0, color = Vec3 0 0 1\<rparr>,
                  10 := \<lparr>position = Vec3 0 0 0, color = Vec3 0 0 1\<rparr>,
                  20 := \<lparr>position = Vec3 0 0 0, color = Vec3 0 0 1\<rparr>,
                  239 := \<lparr>position = Vec3 0 0 0, color = Vec3 0 0 1\<rparr>],
      changed_indeces = {|239, 20, 10, 3|}, g_color = Vec3 0 0 1, is_changing_color = True,
      selected_color = 2, prev_color = 2, rand_src = sconst 0\<rparr>"
  have a: "painted_ok ?s" by (simp add: painted_ok_def)
  have b: "color_current ?s" by (simp add: color_current_def set_color_def)
  have c: "frame True False ?s = Some (Inr ?t)"
    by (simp add: frame_def read_pad_def choose_color_def set_color_def run_defs draw_hit draw_miss)
  from recolored_vertices_carry_the_color[of ?s ?t _ True False] a b c show ?thesis by simp
qed

text \<open>
  C9. A call of \<open>sceneRender\<close> keeps the size of the mesh and every position; a vertex
  whose index the call did not add to the set is unchanged, and a vertex whose index it added
  has the current colour. After a clear with a new colour and any number of calls, a vertex
  whose index is not in the new set is as it was before the clear (it keeps the colour of the
  earlier pass), and a vertex whose index is in the new set has the new colour.
\<close>

theorem sceneRender_changes_only_drawn_colors:
  "(sceneRender s = Some (Inr t) \<longrightarrow>
      length (sphere t) = length (sphere s) \<and>
      (\<forall>j<length (sphere s).
          position (sphere t ! j) = position (sphere s ! j) \<and>
          (j |\<in>| changed_indeces s \<or> j |\<notin>| changed_indeces t \<longrightarrow> sphere t ! j = sphere s ! j) \<and>
          (j |\<in>| changed_indeces t \<and> j |\<notin>| changed_indeces s \<longrightarrow> color (sphere t ! j) = g_color s))) \<and>
   (prev_color s \<noteq> c \<and> render_times n (set_color (choose_color c s)) = Some (Inr t) \<longrightarrow>
      (\<forall>j<length (sphere s).
          position (sphere t ! j) = position (sphere s ! j) \<and>
          (j |\<notin>| changed_indeces t \<longrightarrow> sphere t ! j = sphere s ! j) \<and>
          (j |\<in>| changed_indeces t \<longrightarrow>
              color (sphere t ! j) = g_color (set_color (choose_color c s)))))"
proof (intro conjI impI)
  assume "sceneRender s = Some (Inr t)"
  then have st: "pass_step s t" by (rule sceneRender_step)
  then show "length (sphere t) = length (sphere s)" by (simp add: pass_step_def)
  from st show "\<forall>j<length (sphere s).
          position (sphere t ! j) = position (sphere s ! j) \<and>
          (j |\<in>| changed_indeces s \<or> j |\<notin>| changed_indeces t \<longrightarrow> sphere t ! j = sphere s ! j) \<and>
          (j |\<in>| changed_indeces t \<and> j |\<notin>| changed_indeces s \<longrightarrow> color (sphere t ! j) = g_color s)"
    unfolding pass_step_def by blast
next
  assume a: "prev_color s \<noteq> c \<and> render_times n (set_color (choose_color c s)) = Some (Inr t)"
  define s' where "s' = set_color (choose_color c s)"
  from a have "render_times n s' = Some (Inr t)" by (simp add: s'_def)
  then have st: "pass_step s' t" by (rule render_times_step)
  from a have e: "changed_indeces s' = {||}" and m: "sphere s' = sphere s" by (simp_all add: s'_def)
  show "\<forall>j<length (sphere s).
          position (sphere t ! j) = position (sphere s ! j) \<and>
          (j |\<notin>| changed_indeces t \<longrightarrow> sphere t ! j = sphere s ! j) \<and>
          (j |\<in>| changed_indeces t \<longrightarrow>
              color (sphere t ! j) = g_color (set_color (choose_color c s)))"
    using st e m unfolding pass_step_def s'_def[symmetric] by auto
qed

theorem sceneRender_changes_only_drawn_colors_witness:
  "let s = \<lparr>sphere = (replicate 720 \<lparr>position = Vec3 0 0 0, color = Vec3 1 1 1\<rparr>)
                 [3 := \<lparr>position = Vec3 0 0 0, color = Vec3 1 0 0\<rparr>,
                  5 := \<lparr>position = Vec3 0 0 0, color = Vec3 1 0 0\<rparr>,
                  7 := \<lparr>position = Vec3 0 0 0, color = Vec3 1 0 0\<rparr>],
      changed_indeces = {|7, 5, 3|}, g_color = Vec3 1 0 0, is_changing_color = False,
      selected_color = 0, prev_color = 0,
      rand_src = 8 ## 3 ## 8 ## 10 ## 8 ## 485 ## 8 ## 30 ## sconst 0\<rparr>;
       t = \<lparr>sphere = (replicate 720 \<lparr>position = Vec3 0 0 0, color = Vec3 1 1 1\<rparr>)
                 [3 := \<lparr>position = Vec3 0 0 0, color = Vec3 1 0 0\<rparr>,
                  5 := \<lparr>position = Vec3 0 0 0, color = Vec3 1 0 0\<rparr>,
                  7 := \<lparr>position = Vec3 0 0 0, color = Vec3 1 0 0\<rparr>,
                  3 := \<lparr>position = Vec3 0 0 0, color = Vec3 0 1 0\<rparr>,
                  10 := \<lparr>position = Vec3 0 0 0, color = Vec3 0 1 0\<rparr>,
                  5 := \<lparr>position = Vec3 0 0 0, color = Vec3 0 1 0\<rparr>,
                  30 := \<lparr>position = Vec3 0 0 0, color = Vec3 0 1 0\<rparr>],
      changed_indeces = {|30, 5, 10, 3|}, g_color = Vec3 0 1 0, is_changing_color = True,
      selected_color = 1, prev_color = 0, rand_src = sconst 0\<rparr>
   in prev_color s \<noteq> 1 \<and>
      render_times (Suc 0) (set_color (choose_color 1 s)) = Some (Inr t) \<and>
      position (sphere t ! 3) = position (sphere s ! 3) \<and>
      sphere t ! 7 = sphere s ! 7 \<and>
      color (sphere t ! 3) = g_color (set_color (choose_color 1 s))"
proof -
  let ?s = "\<lparr>sphere = (replicate 720 \<lparr>position = Vec3 0 0 0, color = Vec3 1 1 1\<rparr>)
                 [3 := \<lparr>position = Vec3 0 0 0, color = Vec3 1 0 0\<rparr>,
                  5 := \<lparr>position = Vec3 0 0 0, color = Vec3 1 0 0\<rparr>,
                  7 := \<lparr>position = Vec3 0 0 0, color = Vec3 1 0 0\<rparr>],
      changed_indeces = {|7, 5, 3|}, g_color = Vec3 1 0 0, is_changing_color = False,
      selected_color = 0, prev_color = 0,
      rand_src = 8 ## 3 ## 8 ## 10 ## 8 ## 485 ## 8 ## 30 ## sconst 0\<rparr>"
  let ?t = "\<lparr>sphere = (replicate 720 \<lparr>position = Vec3 0 0 0, color = Vec3 1 1 1\<rparr>)
                 [3 := \<lparr>position = Vec3 0 0 0, color = Vec3 1 0 0\<rparr>,
                  5 := \<lparr>position = Vec3 0 0 0, color = Vec3 1 0 0\<rparr>,
                  7 := \<lparr>position = Vec3 0 0 0, color = Vec3 1 0 0\<rparr>,
                  3 := \<lparr>position = Vec3 0 0 0, color = Vec3 0 1 0\<rparr>,
                  10 := \<lparr>position = Vec3 0 0 0, color = Vec3 0 1 0\<rparr>,
                  5 := \<lparr>position = Vec3 0 0 0, color = Vec3 0 1 0\<rparr>,
                  30 := \<lparr>position = Vec3 0 0 0, color = Vec3 0 1 0\<rparr>],
      changed_indeces = {|30, 5, 10, 3|}, g_color = Vec3 0 1 0, is_changing_color = True,
      selected_color = 1, prev_color = 0, rand_src = sconst 0\<rparr>"
  have a: "prev_color ?s \<noteq> 1" by simp
  have b: "render_times (Suc 0) (set_color (choose_color 1 ?s)) = Some (Inr ?t)"
    by (simp add: choose_color_def set_color_def run_defs draw_hit draw_miss)
  have c: "(3::nat) < length (sphere ?s)" "(7::nat) < length (sphere ?s)"
    "7 |\<notin>| changed_indeces ?t" "3 |\<in>| changed_indeces ?t" by simp_all
  from sceneRender_changes_only_drawn_colors[of ?s ?t 1 "Suc 0"] a b c
  show ?thesis unfolding Let_def by blast
qed

text \<open>
  C10. \<open>is_changing_color\<close> is never read by the animation: started from two states that
  differ only in that flag, one call of \<open>sceneRender\<close>, and any number of calls in a row,
  have outcomes that differ at most in that flag (the same mesh, set, colour and remaining
  random values, or no return in both).
\<close>

theorem is_changing_color_never_read:
  "wipe c (sceneRender (s\<lparr>is_changing_color := b\<rparr>)) = wipe c (sceneRender s) \<and>
   wipe c (render_times n (s\<lparr>is_changing_color := b\<rparr>)) = wipe c (render_times n s)"
  by (simp only: sceneRender_flag render_times_flag)

end
